theory Spec2Isabelle
  imports Complex_Main "HOL-Library.Sublist"
begin

section \<open>The SSH session manager of pybricksdev (ev3dev.py)\<close>

text \<open>
  The module keeps a process-wide dictionary \<open>_connections\<close> from device addresses to
  asyncssh connection objects, and the class \<open>EV3SSH\<close> wraps one such object. The
  remote side (asyncssh and the device) is not part of the module: every call into it is
  answered by a transport, a record of answers, and the module's own control flow is
  modelled around those answers.
\<close>

subsection \<open>Outcomes of awaited calls\<close>

text \<open>
  An awaited call returns a value, raises an exception, or never completes. The
  exceptions named are the ones the module's \<open>except\<close> clauses distinguish;
  \<open>OtherError\<close> stands for every other exception class.
\<close>

datatype exn = KeyError | AttributeError | ChannelOpenError | TimeoutError | OtherError string

datatype 'a outcome = Returns 'a | Raises exn | Stalls

type_synonym address = string

text \<open>Objects are known by their identity: a connection object and its SFTP client.\<close>

type_synonym conn = nat
type_synonym sftp_client = nat

text \<open>The remote operations the module issues, as a mock transport would record them.\<close>

datatype call =
    Run conn string
  | Connect address string string
  | SftpGetcwd conn
  | StartSftpClient conn
  | SftpChdir conn string
  | SftpExit conn
  | Close conn

text \<open>
  The state of the module: the dictionary \<open>_connections\<close>, the attribute \<open>sftp\<close>
  that the module sets on connection objects (absent until set), the identity the next
  new object gets, and the remote operations issued so far.
\<close>

record state =
  connections :: "address \<rightharpoonup> conn"
  sftp :: "conn \<rightharpoonup> sftp_client"
  next_obj :: nat
  calls :: "call list"

text \<open>
  The answers of the remote side. Within one run of a function of the module each of
  these operations is issued at most once per object, so a function from the arguments
  to the outcome loses no behaviour.
\<close>

record transport =
  ssh_run :: "conn \<Rightarrow> string \<Rightarrow> unit outcome"
  ssh_connect :: "address \<Rightarrow> string \<Rightarrow> string \<Rightarrow> unit outcome"
  sftp_getcwd :: "conn \<Rightarrow> unit outcome"
  start_sftp_client :: "conn \<Rightarrow> unit outcome"
  sftp_chdir :: "conn \<Rightarrow> string \<Rightarrow> unit outcome"
  sftp_exit :: "conn \<Rightarrow> unit outcome"
  ssh_close :: "conn \<Rightarrow> unit outcome"

definition HOME :: string where
  "HOME = ''/home/robot''"

definition USER :: string where
  "USER = ''robot''"

definition PASSWORD :: string where
  "PASSWORD = ''maker''"

definition issue :: "call \<Rightarrow> state \<Rightarrow> state" where
  "issue c s = s\<lparr>calls := calls s @ [c]\<rparr>"

subsection \<open>\<open>_get_connection\<close>\<close>

text \<open>
  Lines 30 to 36: \<open>client.sftp.getcwd()\<close> raises AttributeError when the attribute is
  absent or when the call does; the handler opens the SFTP client, stores it in the
  attribute and changes to the home directory. Any other exception, and any exception
  of the handler itself, leaves the function.
\<close>

definition start_sftp :: "transport \<Rightarrow> state \<Rightarrow> conn \<Rightarrow> unit outcome \<times> state" where
  "start_sftp T s c =
     (let s1 = issue (StartSftpClient c) s in
      case start_sftp_client T c of
        Stalls \<Rightarrow> (Stalls, s1)
      | Raises e \<Rightarrow> (Raises e, s1)
      | Returns _ \<Rightarrow>
          (let s2 = s1\<lparr>sftp := (sftp s1)(c \<mapsto> next_obj s1), next_obj := Suc (next_obj s1)\<rparr>;
               s3 = issue (SftpChdir c HOME) s2
           in case sftp_chdir T c HOME of
                Stalls \<Rightarrow> (Stalls, s3)
              | Raises e \<Rightarrow> (Raises e, s3)
              | Returns _ \<Rightarrow> (Returns (), s3)))"

definition open_sftp :: "transport \<Rightarrow> state \<Rightarrow> conn \<Rightarrow> unit outcome \<times> state" where
  "open_sftp T s c =
     (case sftp s c of
        None \<Rightarrow> start_sftp T s c
      | Some _ \<Rightarrow>
          (let s1 = issue (SftpGetcwd c) s in
           case sftp_getcwd T c of
             Stalls \<Rightarrow> (Stalls, s1)
           | Returns _ \<Rightarrow> (Returns (), s1)
           | Raises e \<Rightarrow> (if e = AttributeError then start_sftp T s1 c else (Raises e, s1))))"

text \<open>
  Lines 22 to 39, the handler of the outer \<open>try\<close>: the entry is popped, a new
  connection is made (a new object), its SFTP client is opened, and only then is the
  connection stored.
\<close>

definition reconnect :: "transport \<Rightarrow> state \<Rightarrow> address \<Rightarrow> unit outcome \<times> state" where
  "reconnect T s address =
     (let s1 = s\<lparr>connections := (connections s)(address := None)\<rparr>;
          s2 = issue (Connect address USER PASSWORD) s1
      in case ssh_connect T address USER PASSWORD of
           Stalls \<Rightarrow> (Stalls, s2)
         | Raises e \<Rightarrow> (Raises e, s2)
         | Returns _ \<Rightarrow>
             (let client = next_obj s2;
                  s3 = s2\<lparr>next_obj := Suc (next_obj s2)\<rparr>
              in case open_sftp T s3 client of
                   (Stalls, s4) \<Rightarrow> (Stalls, s4)
                 | (Raises e, s4) \<Rightarrow> (Raises e, s4)
                 | (Returns _, s4) \<Rightarrow>
                     (Returns (), s4\<lparr>connections := (connections s4)(address \<mapsto> client)\<rparr>)))"

text \<open>Line 42: \<open>return _connections[address]\<close>.\<close>

definition return_connection :: "state \<Rightarrow> address \<Rightarrow> conn outcome \<times> state" where
  "return_connection s address =
     (case connections s address of
        None \<Rightarrow> (Raises KeyError, s)
      | Some c \<Rightarrow> (Returns c, s))"

definition handled :: "exn \<Rightarrow> bool" where
  "handled e = (e = KeyError \<or> e = AttributeError \<or> e = ChannelOpenError)"

definition after_reconnect :: "unit outcome \<times> state \<Rightarrow> address \<Rightarrow> conn outcome \<times> state" where
  "after_reconnect r address =
     (case r of
        (Stalls, s) \<Rightarrow> (Stalls, s)
      | (Raises e, s) \<Rightarrow> (Raises e, s)
      | (Returns _, s) \<Rightarrow> return_connection s address)"

text \<open>
  Lines 12 to 42. The probe \<open>_connections[address].run('pwd')\<close> is awaited as it is,
  with no timeout around it. A missing key raises KeyError before any remote call.
\<close>

definition get_connection :: "transport \<Rightarrow> state \<Rightarrow> address \<Rightarrow> conn outcome \<times> state" where
  "get_connection T s address =
     (case connections s address of
        None \<Rightarrow> after_reconnect (reconnect T s address) address
      | Some c \<Rightarrow>
          (let s1 = issue (Run c ''pwd'') s in
           case ssh_run T c ''pwd'' of
             Stalls \<Rightarrow> (Stalls, s1)
           | Returns _ \<Rightarrow> return_connection s1 address
           | Raises e \<Rightarrow>
               (if handled e then after_reconnect (reconnect T s1 address) address
                else (Raises e, s1))))"

subsection \<open>The class \<open>EV3SSH\<close>\<close>

text \<open>The attribute \<open>client\<close> of an \<open>EV3SSH\<close> object is absent until \<open>connect\<close> sets it.\<close>

record ev3ssh =
  client :: "conn option"

definition connect :: "transport \<Rightarrow> state \<times> ev3ssh \<Rightarrow> address \<Rightarrow> unit outcome \<times> state \<times> ev3ssh" where
  "connect T se address =
     (case get_connection T (fst se) address of
        (Stalls, s') \<Rightarrow> (Stalls, s', snd se)
      | (Raises e, s') \<Rightarrow> (Raises e, s', snd se)
      | (Returns c, s') \<Rightarrow> (Returns (), s', (snd se)\<lparr>client := Some c\<rparr>))"

text \<open>
  Lines 56 to 59. Both attribute lookups raise AttributeError when the attribute is
  absent; there is no \<open>try\<close> in the method and it does not touch \<open>_connections\<close>.
\<close>

definition disconnect :: "transport \<Rightarrow> state \<times> ev3ssh \<Rightarrow> unit outcome \<times> state" where
  "disconnect T se =
     (case client (snd se) of
        None \<Rightarrow> (Raises AttributeError, fst se)
      | Some c \<Rightarrow>
          (case sftp (fst se) c of
             None \<Rightarrow> (Raises AttributeError, fst se)
           | Some _ \<Rightarrow>
               (let s1 = issue (SftpExit c) (fst se) in
                case sftp_exit T c of
                  Stalls \<Rightarrow> (Stalls, s1)
                | Raises e \<Rightarrow> (Raises e, s1)
                | Returns _ \<Rightarrow>
                    (let s2 = issue (Close c) s1 in
                     case ssh_close T c of
                       Stalls \<Rightarrow> (Stalls, s2)
                     | Raises e \<Rightarrow> (Raises e, s2)
                     | Returns _ \<Rightarrow> (Returns (), s2)))))"

subsection \<open>Paths\<close>

text \<open>
  \<open>from os import path, sep\<close>: on the POSIX hosts the tool runs on these are
  \<open>posixpath\<close> and \<open>'/'\<close>. \<open>path.split\<close> cuts after the last separator and
  strips trailing separators from a head that is not made of separators only;
  \<open>path.join\<close> of two components restarts at an absolute second component and adds a
  separator unless the first component is empty or ends with one; \<open>str.split\<close> cuts
  at every separator and never returns the empty list.
\<close>

definition sep :: char where
  "sep = CHR ''/''"

definition path_split :: "string \<Rightarrow> string \<times> string" where
  "path_split p =
     (let tail = rev (takeWhile (\<lambda>c. c \<noteq> sep) (rev p));
          head = take (length p - length tail) p
      in (if head \<noteq> [] \<and> \<not> list_all (\<lambda>c. c = sep) head
          then rev (dropWhile (\<lambda>c. c = sep) (rev head))
          else head, tail))"

definition path_join :: "string \<Rightarrow> string \<Rightarrow> string" where
  "path_join a b =
     (if b \<noteq> [] \<and> hd b = sep then b
      else if a = [] \<or> last a = sep then a @ b
      else a @ [sep] @ b)"

fun str_split :: "string \<Rightarrow> char \<Rightarrow> string list" where
  "str_split [] c = [[]]"
| "str_split (x # xs) c =
     (if x = c then [] # str_split xs c
      else (case str_split xs c of
              w # ws \<Rightarrow> (x # w) # ws
            | [] \<Rightarrow> [[x]]))"

subsection \<open>\<open>EV3SSH.pybricks\<close>: the remote directories\<close>

text \<open>
  The remote file system is reached through the SFTP client of a connected session. Its
  state is of any type; \<open>exists\<close> reads it and \<open>mkdir\<close> changes it when it succeeds.
  The calls made are returned in order, as a mock transport counts them.
\<close>

datatype sftp_call = Exists string | Mkdir string

record 'fs sftp_server =
  sftp_exists :: "'fs \<Rightarrow> string \<Rightarrow> bool outcome"
  sftp_mkdir :: "'fs \<Rightarrow> string \<Rightarrow> 'fs outcome"

definition after ::
  "sftp_call list \<Rightarrow> unit outcome \<times> 'fs \<times> sftp_call list \<Rightarrow> unit outcome \<times> 'fs \<times> sftp_call list" where
  "after cs r = (fst r, fst (snd r), cs @ snd (snd r))"

text \<open>
  Lines 71 to 74, the loop \<open>for name in dirs.split(sep)\<close>; \<open>tot\<close> is the variable
  \<open>total\<close> of the source.
\<close>

fun make_folders ::
  "'fs sftp_server \<Rightarrow> string list \<Rightarrow> string \<Rightarrow> 'fs \<Rightarrow> unit outcome \<times> 'fs \<times> sftp_call list" where
  "make_folders S [] tot fs = (Returns (), fs, [])"
| "make_folders S (name # names) tot fs =
     (let tot' = path_join tot name;
          p = path_join HOME tot'
      in case sftp_exists S fs p of
           Stalls \<Rightarrow> (Stalls, fs, [Exists p])
         | Raises e \<Rightarrow> (Raises e, fs, [Exists p])
         | Returns b \<Rightarrow>
             (if b then after [Exists p] (make_folders S names tot' fs)
              else (case sftp_mkdir S fs p of
                      Stalls \<Rightarrow> (Stalls, fs, [Exists p, Mkdir p])
                    | Raises e \<Rightarrow> (Raises e, fs, [Exists p, Mkdir p])
                    | Returns fs' \<Rightarrow>
                        after [Exists p, Mkdir p] (make_folders S names tot' fs'))))"

text \<open>Lines 64 to 74: the loop runs only when the check of the whole directory fails.\<close>

definition pybricks_dirs ::
  "'fs sftp_server \<Rightarrow> 'fs \<Rightarrow> string \<Rightarrow> unit outcome \<times> 'fs \<times> sftp_call list" where
  "pybricks_dirs S fs file_path =
     (let dirs = fst (path_split file_path);
          p = path_join HOME dirs
      in case sftp_exists S fs p of
           Stalls \<Rightarrow> (Stalls, fs, [Exists p])
         | Raises e \<Rightarrow> (Raises e, fs, [Exists p])
         | Returns b \<Rightarrow>
             (if b then (Returns (), fs, [Exists p])
              else after [Exists p] (make_folders S (str_split dirs sep) [] fs)))"

subsection \<open>\<open>EV3SSH.pybricks\<close>: the output loop\<close>

text \<open>
  The remote process as the loop sees it: the exit status, absent while the process
  runs, the lines of its standard error stream that have been received and not yet read,
  whether the end of that stream has been received, and what is still to arrive.
  Arrivals are grouped by the suspension of the coroutine during which the event loop
  receives them (a group may be empty); between two suspensions nothing changes.
\<close>

datatype proc_event = Stderr string | Eof | ExitStatus int

record process =
  arriving :: "proc_event list list"
  stderr_buffer :: "string list"
  at_eof :: bool
  exit_status :: "int option"

fun receive :: "proc_event \<Rightarrow> process \<Rightarrow> process" where
  "receive (Stderr l) p = p\<lparr>stderr_buffer := stderr_buffer p @ [l]\<rparr>"
| "receive Eof p = p\<lparr>at_eof := True\<rparr>"
| "receive (ExitStatus n) p = p\<lparr>exit_status := Some n\<rparr>"

definition suspend :: "process \<Rightarrow> process" where
  "suspend p =
     (case arriving p of
        [] \<Rightarrow> p
      | b # bs \<Rightarrow> fold receive b (p\<lparr>arriving := bs\<rparr>))"

text \<open>
  \<open>readline\<close> of asyncssh: it returns the next line when a whole line is in the
  buffer, returns the empty string at once when the buffer is empty and the end of the
  stream has been received, and otherwise does not complete until more arrives.
\<close>

definition readline :: "process \<Rightarrow> string outcome \<times> process" where
  "readline p =
     (case stderr_buffer p of
        [] \<Rightarrow> (if at_eof p then (Returns [], p) else (Stalls, p))
      | l # ls \<Rightarrow> (Returns l, p\<lparr>stderr_buffer := ls\<rparr>))"

text \<open>
  \<open>asyncio.wait_for\<close>: with a timeout, a call that does not complete raises
  TimeoutError; with none it is awaited as it is.
\<close>

definition wait_for :: "'a outcome \<Rightarrow> rat option \<Rightarrow> 'a outcome" where
  "wait_for r timeout =
     (case timeout of
        None \<Rightarrow> r
      | Some t \<Rightarrow> (case r of Stalls \<Rightarrow> Raises TimeoutError | _ \<Rightarrow> r))"

text \<open>
  The time, in seconds, for which the caller of \<open>asyncio.wait_for\<close> is suspended,
  from the time the awaited call takes by itself (\<open>None\<close> when it never completes):
  with a timeout the caller waits for the call or for the timeout, whichever ends
  first; with none it waits as long as the call. \<open>in_time\<close> says that the call
  completes before \<open>wait_for\<close> gives up.
\<close>

definition wait_for_time :: "rat option \<Rightarrow> rat option \<Rightarrow> rat option" where
  "wait_for_time d timeout =
     (case timeout of
        None \<Rightarrow> d
      | Some t \<Rightarrow> (case d of None \<Rightarrow> Some t | Some x \<Rightarrow> Some (min x t)))"


text \<open>Line 90: the timeout of each read of the output loop, \<open>timeout=0.1\<close>.\<close>

definition read_timeout :: "rat option" where
  "read_timeout = Some (1 / 10)"

text \<open>\<open>str.strip\<close> on ASCII text: white space is removed at both ends.\<close>

definition isspace :: "char \<Rightarrow> bool" where
  "isspace c \<longleftrightarrow> c \<in> {CHR 0x09, CHR 0x0A, CHR 0x0B, CHR 0x0C, CHR 0x0D,
                       CHR 0x1C, CHR 0x1D, CHR 0x1E, CHR 0x1F, CHR 0x20}"

definition strip :: "string \<Rightarrow> string" where
  "strip s = rev (dropWhile isspace (rev (dropWhile isspace s)))"

text \<open>
  Lines 87 to 94. The result is the list of lines printed, \<open>Inl\<close> an exception that
  leaves the loop, and \<open>None\<close> when the loop never ends.
\<close>

partial_function (option) pybricks_output ::
  "process \<Rightarrow> string list \<Rightarrow> (exn + string list) option" where
  "pybricks_output p printed =
     (case exit_status p of
        Some n \<Rightarrow> Some (Inr printed)
      | None \<Rightarrow>
          (case readline (suspend p) of
             (r, p1) \<Rightarrow>
               (case wait_for r read_timeout of
                  Returns line \<Rightarrow> pybricks_output p1 (printed @ [strip line])
                | Raises e \<Rightarrow>
                    (if e = TimeoutError then pybricks_output p1 printed else Some (Inl e))
                | Stalls \<Rightarrow> None)))"

declare pybricks_output.simps [code]

subsection \<open>\<open>_get_connection\<close> as a coroutine\<close>

text \<open>
  Called from several tasks of one event loop, \<open>_get_connection\<close> runs from one
  \<open>await\<close> to the next without interruption and may be suspended at each of them: at
  the probe (line 19), the connect (line 25), \<open>getcwd\<close> (line 32),
  \<open>start_sftp_client\<close> (line 34) and \<open>chdir\<close> (line 35). A task records where it is
  suspended and its local variables. A remote operation is issued when the task
  suspends on it; resuming the task gives it the transport's answer and runs it to
  its next suspension. A call that never completes leaves the task where it is.
\<close>

datatype task =
    Start address
  | AwaitRun address conn
  | AwaitConnect address
  | AwaitGetcwd address conn
  | AwaitStartSftp address conn
  | AwaitChdir address conn
  | Finished "conn outcome"

definition begin_reconnect :: "state \<Rightarrow> address \<Rightarrow> task \<times> state" where
  "begin_reconnect s address =
     (AwaitConnect address,
      issue (Connect address USER PASSWORD) (s\<lparr>connections := (connections s)(address := None)\<rparr>))"

definition begin_start_sftp :: "state \<Rightarrow> address \<Rightarrow> conn \<Rightarrow> task \<times> state" where
  "begin_start_sftp s address c = (AwaitStartSftp address c, issue (StartSftpClient c) s)"

definition finish :: "state \<Rightarrow> address \<Rightarrow> conn \<Rightarrow> task \<times> state" where
  "finish s address c =
     (let s' = s\<lparr>connections := (connections s)(address \<mapsto> c)\<rparr>
      in (Finished (fst (return_connection s' address)), s'))"

fun resume :: "transport \<Rightarrow> state \<Rightarrow> task \<Rightarrow> task \<times> state" where
  "resume T s (Start address) =
     (case connections s address of
        None \<Rightarrow> begin_reconnect s address
      | Some c \<Rightarrow> (AwaitRun address c, issue (Run c ''pwd'') s))"
| "resume T s (AwaitRun address c) =
     (case ssh_run T c ''pwd'' of
        Stalls \<Rightarrow> (AwaitRun address c, s)
      | Returns _ \<Rightarrow> (Finished (fst (return_connection s address)), s)
      | Raises e \<Rightarrow>
          (if handled e then begin_reconnect s address else (Finished (Raises e), s)))"
| "resume T s (AwaitConnect address) =
     (case ssh_connect T address USER PASSWORD of
        Stalls \<Rightarrow> (AwaitConnect address, s)
      | Raises e \<Rightarrow> (Finished (Raises e), s)
      | Returns _ \<Rightarrow>
          (let c = next_obj s;
               s1 = s\<lparr>next_obj := Suc (next_obj s)\<rparr>
           in case sftp s1 c of
                None \<Rightarrow> begin_start_sftp s1 address c
              | Some _ \<Rightarrow> (AwaitGetcwd address c, issue (SftpGetcwd c) s1)))"
| "resume T s (AwaitGetcwd address c) =
     (case sftp_getcwd T c of
        Stalls \<Rightarrow> (AwaitGetcwd address c, s)
      | Returns _ \<Rightarrow> finish s address c
      | Raises e \<Rightarrow>
          (if e = AttributeError then begin_start_sftp s address c
           else (Finished (Raises e), s)))"
| "resume T s (AwaitStartSftp address c) =
     (case start_sftp_client T c of
        Stalls \<Rightarrow> (AwaitStartSftp address c, s)
      | Raises e \<Rightarrow> (Finished (Raises e), s)
      | Returns _ \<Rightarrow>
          (AwaitChdir address c,
           issue (SftpChdir c HOME)
             (s\<lparr>sftp := (sftp s)(c \<mapsto> next_obj s), next_obj := Suc (next_obj s)\<rparr>)))"
| "resume T s (AwaitChdir address c) =
     (case sftp_chdir T c HOME of
        Stalls \<Rightarrow> (AwaitChdir address c, s)
      | Raises e \<Rightarrow> (Finished (Raises e), s)
      | Returns _ \<Rightarrow> finish s address c)"
| "resume T s (Finished r) = (Finished r, s)"

text \<open>
  The event loop resumes one task at a time, in the order of a schedule of task
  numbers; the tasks share the state of the module.
\<close>

definition turn :: "transport \<Rightarrow> nat \<Rightarrow> state \<times> task list \<Rightarrow> state \<times> task list" where
  "turn T i cfg =
     (if i < length (snd cfg)
      then (case resume T (fst cfg) (snd cfg ! i) of
              (t', s') \<Rightarrow> (s', (snd cfg)[i := t']))
      else cfg)"

definition event_loop ::
  "transport \<Rightarrow> nat list \<Rightarrow> state \<times> task list \<Rightarrow> state \<times> task list" where
  "event_loop T schedule cfg = fold (turn T) schedule cfg"

text \<open>
  A task is finished after at most six turns. \<open>alone\<close> gives one task six turns in a
  row; \<open>one_after_another n\<close> lets \<open>n\<close> tasks run so, each after the one before.
\<close>

definition alone :: "transport \<Rightarrow> state \<Rightarrow> address \<Rightarrow> task \<times> state" where
  "alone T s address =
     (let r1 = resume T s (Start address);
          r2 = resume T (snd r1) (fst r1);
          r3 = resume T (snd r2) (fst r2);
          r4 = resume T (snd r3) (fst r3);
          r5 = resume T (snd r4) (fst r4)
      in resume T (snd r5) (fst r5))"

definition one_after_another :: "nat \<Rightarrow> nat list" where
  "one_after_another n = concat (map (replicate 6) [0..<n])"

section \<open>Properties stated about the module\<close>

subsection \<open>Notions used in the statements\<close>

text \<open>The number of connection handshakes among the remote operations issued.\<close>

fun handshakes :: "call list \<Rightarrow> nat" where
  "handshakes [] = 0"
| "handshakes (Connect a u p # cs) = Suc (handshakes cs)"
| "handshakes (c # cs) = handshakes cs"

text \<open>A transport that answers every call of \<open>_get_connection\<close>.\<close>

definition alive :: "transport \<Rightarrow> bool" where
  "alive T \<longleftrightarrow>
     (\<forall>c cmd. ssh_run T c cmd = Returns ()) \<and>
     (\<forall>a u p. ssh_connect T a u p = Returns ()) \<and>
     (\<forall>c. sftp_getcwd T c = Returns ()) \<and>
     (\<forall>c. start_sftp_client T c = Returns ()) \<and>
     (\<forall>c d. sftp_chdir T c d = Returns ())"

text \<open>
  What is asked of a remote file system: a directory that was made exists, and making
  one removes none.
\<close>

definition grows :: "'fs sftp_server \<Rightarrow> bool" where
  "grows S \<longleftrightarrow>
     (\<forall>fs p fs'. sftp_mkdir S fs p = Returns fs' \<longrightarrow>
        sftp_exists S fs' p = Returns True \<and>
        (\<forall>q. sftp_exists S fs q = Returns True \<longrightarrow> sftp_exists S fs' q = Returns True))"

text \<open>The paths the loop of \<open>pybricks\<close> checks, and a trace in which every \<open>mkdir\<close>
  comes right after the check of the same path.\<close>

fun loop_paths :: "string list \<Rightarrow> string \<Rightarrow> string list" where
  "loop_paths [] tot = []"
| "loop_paths (name # names) tot =
     path_join HOME (path_join tot name) # loop_paths names (path_join tot name)"

fun guarded :: "sftp_call list \<Rightarrow> bool" where
  "guarded [] = True"
| "guarded (Exists p # Mkdir q # cs) = (p = q \<and> guarded cs)"
| "guarded (Exists p # cs) = guarded cs"
| "guarded (Mkdir q # cs) = False"

text \<open>The directories a trace makes, in order, and a path that does not start at the root.\<close>

fun mkdirs :: "sftp_call list \<Rightarrow> string list" where
  "mkdirs [] = []"
| "mkdirs (Mkdir p # cs) = p # mkdirs cs"
| "mkdirs (Exists p # cs) = mkdirs cs"

definition relative :: "string \<Rightarrow> bool" where
  "relative t \<longleftrightarrow> (t = [] \<or> hd t \<noteq> sep)"


subsection \<open>Concrete transports, states and processes\<close>

definition live :: transport where
  "live = \<lparr>ssh_run = (\<lambda>_ _. Returns ()), ssh_connect = (\<lambda>_ _ _. Returns ()),
            sftp_getcwd = (\<lambda>_. Returns ()), start_sftp_client = (\<lambda>_. Returns ()),
            sftp_chdir = (\<lambda>_ _. Returns ()), sftp_exit = (\<lambda>_. Returns ()),
            ssh_close = (\<lambda>_. Returns ())\<rparr>"

definition timing_out :: transport where
  "timing_out = live\<lparr>ssh_run := (\<lambda>_ _. Raises TimeoutError)\<rparr>"


definition unreachable :: transport where
  "unreachable = live\<lparr>ssh_run := (\<lambda>_ _. Raises ChannelOpenError),
                       ssh_connect := (\<lambda>_ _ _. Raises (OtherError ''OSError''))\<rparr>"

definition broken_channel :: transport where
  "broken_channel = live\<lparr>sftp_exit := (\<lambda>_. Raises (OtherError ''SFTPError''))\<rparr>"

definition broken_close :: transport where
  "broken_close = live\<lparr>ssh_close := (\<lambda>_. Raises (OtherError ''OSError''))\<rparr>"

definition init :: state where
  "init = \<lparr>connections = Map.empty, sftp = Map.empty, next_obj = 0, calls = []\<rparr>"

definition EV3SSH :: ev3ssh where
  "EV3SSH = \<lparr>client = None\<rparr>"

definition A0 :: address where
  "A0 = ''192.168.133.101''"

text \<open>The state after the first \<open>connect\<close> to \<open>A0\<close> over \<open>live\<close>.\<close>

definition connected :: state where
  "connected = \<lparr>connections = [A0 \<mapsto> 0], sftp = [0 \<mapsto> 1], next_obj = 2,
     calls = [Connect A0 USER PASSWORD, StartSftpClient 0, SftpChdir 0 HOME]\<rparr>"

text \<open>A remote file system as the list of the paths that exist; \<open>mkdir\<close> of an
  existing path fails.\<close>

definition mock_sftp :: "string list sftp_server" where
  "mock_sftp =
     \<lparr>sftp_exists = (\<lambda>fs p. Returns (p \<in> set fs)),
      sftp_mkdir = (\<lambda>fs p. if p \<in> set fs then Raises (OtherError ''SFTPError'')
                            else Returns (fs @ [p]))\<rparr>"

definition emits :: "proc_event list list \<Rightarrow> process" where
  "emits bs = \<lparr>arriving = bs, stderr_buffer = [], at_eof = False, exit_status = None\<rparr>"

definition with_newline :: "string \<Rightarrow> string" where
  "with_newline s = s @ [CHR 0x0A]"

subsection \<open>The connection cache\<close>

lemmas model_defs =
  get_connection_def after_reconnect_def reconnect_def open_sftp_def start_sftp_def
  return_connection_def handled_def issue_def connect_def disconnect_def

lemma handshakes_append: "handshakes (xs @ ys) = handshakes xs + handshakes ys"
  by (induction xs rule: handshakes.induct) simp_all

lemma get_connection_Returns:
  "get_connection T s A = (Returns c, s') \<Longrightarrow> connections s' A = Some c"
  by (auto simp: model_defs Let_def split: option.splits outcome.splits if_splits prod.splits)

lemma probe_ok:
  "connections s A = Some c \<Longrightarrow> ssh_run T c ''pwd'' = Returns () \<Longrightarrow>
   get_connection T s A = (Returns c, issue (Run c ''pwd'') s)"
  by (simp add: get_connection_def return_connection_def issue_def)

lemma connect_live_init:
  "connect live (init, EV3SSH) A0 = (Returns (), connected, \<lparr>client = Some 0\<rparr>)"
  by (simp add: model_defs live_def init_def EV3SSH_def connected_def Let_def)

text \<open>
  Claim C1. When the dictionary has a connection for an address and the probe
  \<open>run('pwd')\<close> on it succeeds, \<open>_get_connection\<close> returns that same connection
  object; the state of the module is as before but for the probe among the calls
  issued, so nothing is connected anew. Hence, after a \<open>connect\<close> that succeeded, a
  second \<open>connect\<close> to the same address whose probe succeeds sets the same connection
  object as the first.
\<close>

theorem get_connection_reuses_live_connection:
  "(connections s A = Some c \<and> ssh_run T c ''pwd'' = Returns () \<longrightarrow>
      get_connection T s A = (Returns c, s\<lparr>calls := calls s @ [Run c ''pwd'']\<rparr>) \<and>
      handshakes (calls (snd (get_connection T s A))) = handshakes (calls s)) \<and>
   (connect T1 (s0, e1) A = (Returns (), s1, e1') \<longrightarrow>
      (\<exists>c1. client e1' = Some c1 \<and> connections s1 A = Some c1 \<and>
         (ssh_run T2 c1 ''pwd'' = Returns () \<longrightarrow>
            connect T2 (s1, e2) A =
              (Returns (), s1\<lparr>calls := calls s1 @ [Run c1 ''pwd'']\<rparr>, e2\<lparr>client := Some c1\<rparr>))))"
proof (intro conjI impI)
  assume h: "connections s A = Some c \<and> ssh_run T c ''pwd'' = Returns ()"
  then show "get_connection T s A = (Returns c, s\<lparr>calls := calls s @ [Run c ''pwd'']\<rparr>)"
    using probe_ok by (simp add: issue_def)
  from h show "handshakes (calls (snd (get_connection T s A))) = handshakes (calls s)"
    using probe_ok [of s A c T] by (simp add: issue_def handshakes_append)
next
  assume first: "connect T1 (s0, e1) A = (Returns (), s1, e1')"
  then obtain c1 where g: "get_connection T1 s0 A = (Returns c1, s1)"
    and e: "e1' = e1\<lparr>client := Some c1\<rparr>"
    by (auto simp: connect_def split: prod.splits outcome.splits)
  from g have cached: "connections s1 A = Some c1"
    by (rule get_connection_Returns)
  have "ssh_run T2 c1 ''pwd'' = Returns () \<longrightarrow>
          connect T2 (s1, e2) A =
            (Returns (), s1\<lparr>calls := calls s1 @ [Run c1 ''pwd'']\<rparr>, e2\<lparr>client := Some c1\<rparr>)"
    using probe_ok [OF cached] by (simp add: connect_def issue_def)
  with e cached show "\<exists>c1. client e1' = Some c1 \<and> connections s1 A = Some c1 \<and>
         (ssh_run T2 c1 ''pwd'' = Returns () \<longrightarrow>
            connect T2 (s1, e2) A =
              (Returns (), s1\<lparr>calls := calls s1 @ [Run c1 ''pwd'']\<rparr>, e2\<lparr>client := Some c1\<rparr>))"
    by simp
qed

text \<open>
  The theorem at the address of the module's own test: the first \<open>connect\<close> over a
  live transport makes connection 0, and the second one, and \<open>_get_connection\<close>
  itself, return connection 0 after the probe alone.
\<close>

theorem get_connection_reuses_live_connection_witness:
  "connections connected A0 = Some 0 \<and> ssh_run live 0 ''pwd'' = Returns () \<and>
   get_connection live connected A0 =
     (Returns 0, connected\<lparr>calls := calls connected @ [Run 0 ''pwd'']\<rparr>) \<and>
   connect live (init, EV3SSH) A0 = (Returns (), connected, \<lparr>client = Some 0\<rparr>) \<and>
   connect live (connected, EV3SSH) A0 =
     (Returns (), connected\<lparr>calls := calls connected @ [Run 0 ''pwd'']\<rparr>, \<lparr>client = Some 0\<rparr>)"
  using get_connection_reuses_live_connection
          [of connected A0 0 live live init EV3SSH connected "\<lparr>client = Some 0\<rparr>" live EV3SSH]
    connect_live_init
  by (simp add: connected_def live_def EV3SSH_def)

subsection \<open>\<open>disconnect\<close> and the cache\<close>

text \<open>
  Claim C4, as stated, fails: \<open>disconnect\<close> does not touch \<open>_connections\<close>. After a
  \<open>connect\<close> to \<open>A0\<close> and a \<open>disconnect\<close> that both succeed, the dictionary still
  maps \<open>A0\<close> to the closed connection 0.
\<close>

theorem disconnect_leaves_cache_entry:
  "fst (disconnect live (snd (connect live (init, EV3SSH) A0))) = Returns () \<and>
   connections (snd (disconnect live (snd (connect live (init, EV3SSH) A0)))) A0 = Some 0"
  by (simp add: connect_live_init) (simp add: disconnect_def connected_def live_def issue_def)

text \<open>
  Claim C4, amended. For a connected session (the attribute \<open>client\<close> is set and the
  connection has its \<open>sftp\<close> attribute) whose two close calls return, \<open>disconnect\<close>
  exits the SFTP client first and closes the connection second, issues nothing else,
  and leaves \<open>_connections\<close> as it was: the entry of the address stays, and it is the
  failing probe of a later \<open>_get_connection\<close> that removes it.
\<close>

theorem disconnect_closes_sftp_then_connection:
  assumes "client e = Some c" and "sftp s c = Some ch"
    and "sftp_exit T c = Returns ()" and "ssh_close T c = Returns ()"
  shows "disconnect T (s, e) = (Returns (), s\<lparr>calls := calls s @ [SftpExit c, Close c]\<rparr>) \<and>
         connections (snd (disconnect T (s, e))) = connections s"
  using assms by (simp add: disconnect_def issue_def)

theorem disconnect_closes_sftp_then_connection_witness:
  "client \<lparr>client = Some 0\<rparr> = Some 0 \<and> sftp connected 0 = Some 1 \<and>
   sftp_exit live 0 = Returns () \<and> ssh_close live 0 = Returns () \<and>
   disconnect live (connected, \<lparr>client = Some 0\<rparr>) =
     (Returns (), connected\<lparr>calls := calls connected @ [SftpExit 0, Close 0]\<rparr>) \<and>
   connections (snd (disconnect live (connected, \<lparr>client = Some 0\<rparr>))) A0 = Some 0"
  using disconnect_closes_sftp_then_connection [of "\<lparr>client = Some 0\<rparr>" 0 connected 1 live]
  by (simp add: connected_def live_def)

text \<open>
  Claim C6, as stated, fails: \<open>disconnect\<close> has no \<open>try\<close>. On a session whose
  \<open>connect\<close> failed the attribute \<open>client\<close> was never set and \<open>disconnect\<close> raises
  AttributeError; on a connected session whose SFTP channel fails to exit, that error
  leaves \<open>disconnect\<close>.
\<close>

theorem disconnect_raises:
  "fst (connect unreachable (init, EV3SSH) A0) = Raises (OtherError ''OSError'') \<and>
   fst (disconnect live (snd (connect unreachable (init, EV3SSH) A0))) = Raises AttributeError \<and>
   fst (disconnect broken_channel (connected, \<lparr>client = Some 0\<rparr>)) =
     Raises (OtherError ''SFTPError'')"
  by (simp add: model_defs init_def EV3SSH_def unreachable_def live_def Let_def connected_def
      broken_channel_def)

text \<open>
  Claim C6, amended. \<open>disconnect\<close> returns without an exception exactly when the
  session is connected and both close calls return. Otherwise the exception reaches
  the caller: AttributeError when the attribute \<open>client\<close> or \<open>sftp\<close> is absent, the
  error of \<open>sftp.exit()\<close> (and then \<open>close()\<close> is not called), or the error of
  \<open>close()\<close>.
\<close>

theorem disconnect_propagates_errors:
  "(fst (disconnect T (s, e)) = Returns () \<longleftrightarrow>
      (\<exists>c. client e = Some c \<and> sftp s c \<noteq> None \<and>
           sftp_exit T c = Returns () \<and> ssh_close T c = Returns ())) \<and>
   (client e = None \<longrightarrow> disconnect T (s, e) = (Raises AttributeError, s)) \<and>
   (\<forall>c. client e = Some c \<and> sftp s c = None \<longrightarrow>
      disconnect T (s, e) = (Raises AttributeError, s)) \<and>
   (\<forall>c x. client e = Some c \<and> sftp s c \<noteq> None \<and> sftp_exit T c = Raises x \<longrightarrow>
      disconnect T (s, e) = (Raises x, s\<lparr>calls := calls s @ [SftpExit c]\<rparr>)) \<and>
   (\<forall>c x. client e = Some c \<and> sftp s c \<noteq> None \<and> sftp_exit T c = Returns () \<and>
          ssh_close T c = Raises x \<longrightarrow>
      disconnect T (s, e) = (Raises x, s\<lparr>calls := calls s @ [SftpExit c, Close c]\<rparr>))"
  by (auto simp: disconnect_def issue_def Let_def split: option.splits outcome.splits)

theorem disconnect_propagates_errors_witness:
  "fst (disconnect live (connected, \<lparr>client = Some 0\<rparr>)) = Returns () \<and>
   disconnect live (init, EV3SSH) = (Raises AttributeError, init) \<and>
   disconnect live (init, \<lparr>client = Some 0\<rparr>) = (Raises AttributeError, init) \<and>
   disconnect broken_channel (connected, \<lparr>client = Some 0\<rparr>) =
     (Raises (OtherError ''SFTPError''), connected\<lparr>calls := calls connected @ [SftpExit 0]\<rparr>) \<and>
   disconnect broken_close (connected, \<lparr>client = Some 0\<rparr>) =
     (Raises (OtherError ''OSError''),
      connected\<lparr>calls := calls connected @ [SftpExit 0, Close 0]\<rparr>)"
  using disconnect_propagates_errors [of live connected "\<lparr>client = Some 0\<rparr>"]
    disconnect_propagates_errors [of live init EV3SSH]
    disconnect_propagates_errors [of live init "\<lparr>client = Some 0\<rparr>"]
    disconnect_propagates_errors [of broken_channel connected "\<lparr>client = Some 0\<rparr>"]
    disconnect_propagates_errors [of broken_close connected "\<lparr>client = Some 0\<rparr>"]
  by (simp add: connected_def init_def live_def EV3SSH_def broken_channel_def broken_close_def)

subsection \<open>A probe that fails\<close>

lemma start_sftp_frame:
  "connections (snd (start_sftp T s c)) = connections s \<and>
   set (calls s) \<subseteq> set (calls (snd (start_sftp T s c))) \<and>
   next_obj s \<le> next_obj (snd (start_sftp T s c))"
  by (auto simp: start_sftp_def issue_def Let_def split: outcome.splits)

lemma open_sftp_frame:
  "connections (snd (open_sftp T s c)) = connections s \<and>
   set (calls s) \<subseteq> set (calls (snd (open_sftp T s c))) \<and>
   next_obj s \<le> next_obj (snd (open_sftp T s c))"
  using start_sftp_frame [of T s c] start_sftp_frame [of T "issue (SftpGetcwd c) s" c]
  by (auto simp: open_sftp_def issue_def Let_def split: outcome.splits option.splits)

lemma reconnect_props:
  assumes "reconnect T s A = (r, s')"
  shows "Connect A USER PASSWORD \<in> set (calls s')"
    and "r \<noteq> Returns () \<Longrightarrow> connections s' A = None"
    and "ssh_connect T A USER PASSWORD = Raises x \<Longrightarrow> r = Raises x"
    and "r = Returns () \<Longrightarrow> \<exists>c'. connections s' A = Some c' \<and> next_obj s \<le> c'"
    and "B \<noteq> A \<Longrightarrow> connections s' B = connections s B"
proof -
  let ?s2 = "issue (Connect A USER PASSWORD) (s\<lparr>connections := (connections s)(A := None)\<rparr>)"
  let ?s3 = "?s2\<lparr>next_obj := Suc (next_obj ?s2)\<rparr>"
  note fr = open_sftp_frame [of T ?s3 "next_obj ?s2"]
  have in3: "Connect A USER PASSWORD \<in> set (calls ?s3)"
    by (simp add: issue_def)
  show "Connect A USER PASSWORD \<in> set (calls s')"
    using assms fr in3
    by (auto simp: reconnect_def Let_def issue_def split: outcome.splits prod.splits)
  show "r \<noteq> Returns () \<Longrightarrow> connections s' A = None"
    using assms fr
    by (auto simp: reconnect_def Let_def issue_def split: outcome.splits prod.splits)
  show "ssh_connect T A USER PASSWORD = Raises x \<Longrightarrow> r = Raises x"
    using assms by (auto simp: reconnect_def Let_def)
  show "r = Returns () \<Longrightarrow> \<exists>c'. connections s' A = Some c' \<and> next_obj s \<le> c'"
    using assms
    by (auto simp: reconnect_def Let_def issue_def split: outcome.splits prod.splits)
  show "B \<noteq> A \<Longrightarrow> connections s' B = connections s B"
    using assms fr
    by (auto simp: reconnect_def Let_def issue_def split: outcome.splits prod.splits)
qed

text \<open>
  Claim C5, as stated, fails for a probe that fails by a timeout: the handler names
  KeyError, AttributeError and ChannelOpenError only. A probe that raises TimeoutError
  leaves \<open>_get_connection\<close> with that error; the entry stays in the dictionary and
  no reconnect is tried.
\<close>

theorem get_connection_timeout_not_handled:
  "get_connection timing_out connected A0 =
     (Raises TimeoutError, connected\<lparr>calls := calls connected @ [Run 0 ''pwd'']\<rparr>) \<and>
   connections (snd (get_connection timing_out connected A0)) A0 = Some 0"
  by (simp add: get_connection_def handled_def issue_def connected_def timing_out_def live_def)

text \<open>
  Claim C5, amended. When the address has no entry, or the probe raises KeyError,
  AttributeError or ChannelOpenError, \<open>_get_connection\<close> removes the entry and then
  tries to reconnect: a connect is issued; whenever the call does not return a
  connection (the reconnect raised, or is still in flight) the dictionary has no entry
  for the address; an error of the connect reaches the caller; a connection that is
  returned is a new object and is the entry of the address; the entries of other
  addresses are untouched. A probe that raises any other exception, a timeout among
  them, leaves \<open>_get_connection\<close> with that exception and the state unchanged but for
  the probe issued.
\<close>

theorem get_connection_stale_entry_removed:
  assumes run: "get_connection T s A = (r, s')"
  shows
   "((connections s A = None \<or>
      (\<exists>c e. connections s A = Some c \<and> ssh_run T c ''pwd'' = Raises e \<and>
         (e = KeyError \<or> e = AttributeError \<or> e = ChannelOpenError))) \<longrightarrow>
       Connect A USER PASSWORD \<in> set (calls s') \<and>
       ((\<forall>c'. r \<noteq> Returns c') \<longrightarrow> connections s' A = None) \<and>
       (\<forall>x. ssh_connect T A USER PASSWORD = Raises x \<longrightarrow>
          r = Raises x \<and> connections s' A = None) \<and>
       (\<forall>c'. r = Returns c' \<longrightarrow> connections s' A = Some c' \<and> next_obj s \<le> c') \<and>
       (\<forall>B. B \<noteq> A \<longrightarrow> connections s' B = connections s B)) \<and>
    (\<forall>c e. connections s A = Some c \<and> ssh_run T c ''pwd'' = Raises e \<and>
         e \<noteq> KeyError \<and> e \<noteq> AttributeError \<and> e \<noteq> ChannelOpenError \<longrightarrow>
       r = Raises e \<and> s' = s\<lparr>calls := calls s @ [Run c ''pwd'']\<rparr>)"
proof (intro conjI impI allI)
  fix c e
  assume "connections s A = Some c \<and> ssh_run T c ''pwd'' = Raises e \<and>
         e \<noteq> KeyError \<and> e \<noteq> AttributeError \<and> e \<noteq> ChannelOpenError"
  with run show "r = Raises e" and "s' = s\<lparr>calls := calls s @ [Run c ''pwd'']\<rparr>"
    by (auto simp: get_connection_def handled_def issue_def)
next
  assume probe: "connections s A = None \<or>
      (\<exists>c e. connections s A = Some c \<and> ssh_run T c ''pwd'' = Raises e \<and>
         (e = KeyError \<or> e = AttributeError \<or> e = ChannelOpenError))"
  then obtain sp where sp: "get_connection T s A = after_reconnect (reconnect T sp A) A"
    and conns: "connections sp = connections s" and nxt: "next_obj sp = next_obj s"
    by (auto simp: get_connection_def handled_def issue_def Let_def)
  obtain q s2 where rec: "reconnect T sp A = (q, s2)"
    by (cases "reconnect T sp A")
  note props = reconnect_props [OF rec]
  have r_cases: "(q = Returns () \<and> (r, s') = return_connection s2 A) \<or>
      (q \<noteq> Returns () \<and> s' = s2 \<and> (\<forall>c'. r \<noteq> Returns c') \<and> (\<forall>x. q = Raises x \<longrightarrow> r = Raises x))"
    using run sp rec by (cases q) (auto simp: after_reconnect_def)
  have s'_eq: "s' = s2"
    using r_cases by (auto simp: return_connection_def split: option.splits)
  show "Connect A USER PASSWORD \<in> set (calls s')"
    using props(1) s'_eq by simp
  show "connections s' A = None" if "\<forall>c'. r \<noteq> Returns c'"
    using that r_cases props(2,4) s'_eq by (auto simp: return_connection_def split: option.splits)
  show "r = Raises x" if "ssh_connect T A USER PASSWORD = Raises x" for x
    using that r_cases props(3) by auto
  show "connections s' A = None" if "ssh_connect T A USER PASSWORD = Raises x" for x
    using that r_cases props(2,3) s'_eq by auto
  show "connections s' A = Some c'" if "r = Returns c'" for c'
    using that r_cases props(4) s'_eq by (auto simp: return_connection_def split: option.splits)
  show "next_obj s \<le> c'" if "r = Returns c'" for c'
    using that r_cases props(4) s'_eq nxt
    by (auto simp: return_connection_def split: option.splits)
  show "connections s' B = connections s B" if "B \<noteq> A" for B
    using that props(5) s'_eq conns by simp
qed

text \<open>
  The theorem at a stale entry: the probe raises ChannelOpenError and the device
  refuses the connect, so the error of the connect is returned and the entry is gone;
  and at a probe that raises TimeoutError, where nothing else happens.
\<close>

theorem get_connection_stale_entry_removed_witness:
  "get_connection unreachable connected A0 =
     (Raises (OtherError ''OSError''),
      connected\<lparr>connections := Map.empty,
                calls := calls connected @ [Run 0 ''pwd'', Connect A0 USER PASSWORD]\<rparr>) \<and>
   ssh_run unreachable 0 ''pwd'' = Raises ChannelOpenError \<and>
   Connect A0 USER PASSWORD \<in> set (calls (snd (get_connection unreachable connected A0))) \<and>
   connections (snd (get_connection unreachable connected A0)) A0 = None \<and>
   get_connection timing_out connected A0 =
     (Raises TimeoutError, connected\<lparr>calls := calls connected @ [Run 0 ''pwd'']\<rparr>)"
proof -
  have a: "get_connection unreachable connected A0 =
     (Raises (OtherError ''OSError''),
      connected\<lparr>connections := Map.empty,
                calls := calls connected @ [Run 0 ''pwd'', Connect A0 USER PASSWORD]\<rparr>)"
    by (simp add: get_connection_def after_reconnect_def reconnect_def handled_def issue_def
        connected_def unreachable_def live_def Let_def)
  have b: "get_connection timing_out connected A0 =
     (fst (get_connection timing_out connected A0), snd (get_connection timing_out connected A0))"
    by simp
  have p: "ssh_run unreachable 0 ''pwd'' = Raises ChannelOpenError"
    by (simp add: unreachable_def live_def)
  have q: "ssh_run timing_out 0 ''pwd'' = Raises TimeoutError"
    by (simp add: timing_out_def live_def)
  have c: "connections connected A0 = Some 0"
    by (simp add: connected_def)
  show ?thesis
    using get_connection_stale_entry_removed [OF a] get_connection_stale_entry_removed [OF b]
      a p q c
    by (auto simp: prod_eq_iff)
qed

subsection \<open>The remote directories\<close>

lemma after_simps [simp]:
  "after cs (r, fs, tr) = (r, fs, cs @ tr)"
  by (simp add: after_def)

lemma grows_mkdir:
  "grows S \<Longrightarrow> sftp_mkdir S fs p = Returns fs' \<Longrightarrow> sftp_exists S fs' p = Returns True"
  by (simp add: grows_def)

lemma grows_keeps:
  "grows S \<Longrightarrow> sftp_mkdir S fs p = Returns fs' \<Longrightarrow> sftp_exists S fs q = Returns True \<Longrightarrow>
   sftp_exists S fs' q = Returns True"
  unfolding grows_def by blast


lemma make_folders_keeps:
  "grows S \<Longrightarrow> sftp_exists S fs q = Returns True \<Longrightarrow>
   sftp_exists S (fst (snd (make_folders S names tot fs))) q = Returns True"
proof (induction names arbitrary: tot fs)
  case Nil
  then show ?case by simp
next
  case (Cons name names)
  let ?t = "path_join tot name"
  let ?p = "path_join HOME ?t"
  have same: "sftp_exists S (fst (snd (make_folders S names ?t fs))) q = Returns True"
    using Cons.IH [OF Cons.prems] .
  have made: "sftp_exists S (fst (snd (make_folders S names ?t fs'))) q = Returns True"
    if "sftp_mkdir S fs ?p = Returns fs'" for fs'
    using Cons.IH [OF Cons.prems(1) grows_keeps [OF Cons.prems(1) that Cons.prems(2)]] .
  show ?case
    using same made Cons.prems(2)
    by (simp add: Let_def after_def split: outcome.splits)
qed

lemma make_folders_done:
  "grows S \<Longrightarrow> fst (make_folders S names tot fs) = Returns () \<Longrightarrow>
   \<forall>p \<in> set (loop_paths names tot).
      sftp_exists S (fst (snd (make_folders S names tot fs))) p = Returns True"
proof (induction names arbitrary: tot fs)
  case Nil
  then show ?case by simp
next
  case (Cons name names)
  let ?t = "path_join tot name"
  let ?p = "path_join HOME ?t"
  from Cons.prems(2) obtain b where ex: "sftp_exists S fs ?p = Returns b"
    by (cases "sftp_exists S fs ?p") (simp_all add: Let_def)
  show ?case
  proof (cases b)
    case True
    have res: "make_folders S (name # names) tot fs = after [Exists ?p] (make_folders S names ?t fs)"
      using ex True by (simp add: Let_def)
    have ok: "fst (make_folders S names ?t fs) = Returns ()"
      using Cons.prems(2) res by (simp add: after_def)
    have "sftp_exists S (fst (snd (make_folders S names ?t fs))) ?p = Returns True"
      using make_folders_keeps [OF Cons.prems(1)] ex True by simp
    with Cons.IH [OF Cons.prems(1) ok] res show ?thesis by (simp add: after_def)
  next
    case False
    from Cons.prems(2) ex False obtain fs' where mk: "sftp_mkdir S fs ?p = Returns fs'"
      by (cases "sftp_mkdir S fs ?p") (simp_all add: Let_def)
    have res: "make_folders S (name # names) tot fs =
                 after [Exists ?p, Mkdir ?p] (make_folders S names ?t fs')"
      using ex False mk by (simp add: Let_def)
    have ok: "fst (make_folders S names ?t fs') = Returns ()"
      using Cons.prems(2) res by (simp add: after_def)
    have "sftp_exists S (fst (snd (make_folders S names ?t fs'))) ?p = Returns True"
      using make_folders_keeps [OF Cons.prems(1) grows_mkdir [OF Cons.prems(1) mk]] .
    with Cons.IH [OF Cons.prems(1) ok] res show ?thesis by (simp add: after_def)
  qed
qed

lemma make_folders_again:
  "\<forall>p \<in> set (loop_paths names tot). sftp_exists S fs p = Returns True \<Longrightarrow>
   make_folders S names tot fs = (Returns (), fs, map Exists (loop_paths names tot))"
  by (induction names arbitrary: tot) (simp_all add: Let_def)

lemma guarded_Exists: "guarded cs \<Longrightarrow> guarded (Exists p # cs)"
  by (cases cs rule: guarded.cases) simp_all

lemma guarded_map_Exists: "guarded (map Exists ps)"
  by (induction ps) (simp_all add: guarded_Exists)

lemma make_folders_guarded:
  "guarded (snd (snd (make_folders S names tot fs)))"
proof (induction names arbitrary: tot fs)
  case Nil
  then show ?case by simp
next
  case (Cons name names)
  show ?case
    using Cons.IH
    by (simp add: Let_def after_def guarded_Exists split: outcome.splits)
qed

lemma grows_mock_sftp: "grows mock_sftp"
  by (simp add: grows_def mock_sftp_def)

lemma pybricks_dirs_present:
  "sftp_exists S fs (path_join HOME (fst (path_split file_path))) = Returns True \<Longrightarrow>
   pybricks_dirs S fs file_path =
     (Returns (), fs, [Exists (path_join HOME (fst (path_split file_path)))])"
  by (simp add: pybricks_dirs_def Let_def)

lemma pybricks_dirs_guarded: "guarded (snd (snd (pybricks_dirs S fs file_path)))"
  using make_folders_guarded [of S "str_split (fst (path_split file_path)) sep" "[]" fs]
  by (simp add: pybricks_dirs_def Let_def after_def guarded_Exists split: outcome.splits)

lemma mkdirs_append: "mkdirs (xs @ ys) = mkdirs xs @ mkdirs ys"
  by (induction xs rule: mkdirs.induct) simp_all

lemma mkdirs_subseq:
  "subseq (mkdirs (snd (snd (make_folders S names tot fs)))) (loop_paths names tot)"
proof (induction names arbitrary: tot fs)
  case Nil
  then show ?case by simp
next
  case (Cons name names)
  show ?case
    using Cons.IH
    by (auto simp: Let_def after_def split: outcome.splits)
qed

lemma str_split_nonempty: "str_split xs c \<noteq> []"
  by (induction xs) (auto split: list.splits)

lemma str_split_no_sep: "n \<in> set (str_split xs c) \<Longrightarrow> c \<notin> set n"
proof (induction xs arbitrary: n)
  case Nil
  then show ?case by simp
next
  case (Cons x xs)
  show ?case
  proof (cases "x = c")
    case True
    with Cons show ?thesis by auto
  next
    case False
    obtain w ws where sp: "str_split xs c = w # ws"
      using str_split_nonempty [of xs c] by (cases "str_split xs c") auto
    with Cons.prems False have "n = x # w \<or> n \<in> set ws" by simp
    then show ?thesis
      using Cons.IH [of w] Cons.IH [of n] sp False by auto
  qed
qed

lemma path_join_name:
  "sep \<notin> set name \<Longrightarrow>
   path_join tot name = (if tot = [] \<or> last tot = sep then tot @ name else tot @ [sep] @ name)"
  by (cases name) (auto simp: path_join_def)

lemma path_join_relative:
  "sep \<notin> set name \<Longrightarrow> relative tot \<Longrightarrow> relative (path_join tot name)"
  by (cases name; cases tot) (auto simp: path_join_name relative_def)

lemma path_join_prefix:
  "sep \<notin> set name \<Longrightarrow> prefix tot (path_join tot name)"
  by (simp add: path_join_name)

lemma path_join_HOME:
  "relative t \<Longrightarrow> path_join HOME t = HOME @ [sep] @ t"
  by (cases t) (auto simp: path_join_def relative_def HOME_def sep_def)

lemma loop_paths_extend:
  "\<forall>n \<in> set names. sep \<notin> set n \<Longrightarrow> relative tot \<Longrightarrow>
   \<forall>p \<in> set (loop_paths names tot). prefix (path_join HOME tot) p"
proof (induction names arbitrary: tot)
  case Nil
  then show ?case by simp
next
  case (Cons name names)
  let ?t = "path_join tot name"
  have ns: "sep \<notin> set name" using Cons.prems(1) by simp
  have rel: "relative ?t" using path_join_relative [OF ns Cons.prems(2)] .
  have step: "prefix (path_join HOME tot) (path_join HOME ?t)"
    using path_join_prefix [OF ns, of tot] Cons.prems(2) rel by (simp add: path_join_HOME)
  have rest: "\<forall>n \<in> set names. sep \<notin> set n" using Cons.prems(1) by simp
  have "\<forall>p \<in> set (loop_paths names ?t). prefix (path_join HOME ?t) p"
    using Cons.IH [OF rest rel] .
  with step show ?case by (auto intro: prefix_order.trans)
qed

lemma loop_paths_chain:
  "\<forall>n \<in> set names. sep \<notin> set n \<Longrightarrow> relative tot \<Longrightarrow>
   sorted_wrt prefix (loop_paths names tot)"
proof (induction names arbitrary: tot)
  case Nil
  then show ?case by simp
next
  case (Cons name names)
  let ?t = "path_join tot name"
  have ns: "sep \<notin> set name" using Cons.prems(1) by simp
  have rel: "relative ?t" using path_join_relative [OF ns Cons.prems(2)] .
  have rest: "\<forall>n \<in> set names. sep \<notin> set n" using Cons.prems(1) by simp
  have "\<forall>p \<in> set (loop_paths names ?t). prefix (path_join HOME ?t) p"
    using loop_paths_extend [OF rest rel] .
  moreover have "sorted_wrt prefix (loop_paths names ?t)"
    using Cons.IH [OF rest rel] .
  ultimately show ?case by simp
qed

lemma pybricks_dirs_order:
  "subseq (mkdirs (snd (snd (pybricks_dirs S fs file_path))))
     (loop_paths (str_split (fst (path_split file_path)) sep) []) \<and>
   sorted_wrt prefix (loop_paths (str_split (fst (path_split file_path)) sep) [])"
proof
  show "subseq (mkdirs (snd (snd (pybricks_dirs S fs file_path))))
     (loop_paths (str_split (fst (path_split file_path)) sep) [])"
    using mkdirs_subseq [of S "str_split (fst (path_split file_path)) sep" "[]" fs]
    by (simp add: pybricks_dirs_def Let_def after_def split: outcome.splits)
  show "sorted_wrt prefix (loop_paths (str_split (fst (path_split file_path)) sep) [])"
    by (rule loop_paths_chain) (auto simp: relative_def dest: str_split_no_sep)
qed

text \<open>
  Claim C2. Over a remote file system on which a directory that was made exists and
  making one removes none, a first run of the directory step of \<open>pybricks\<close> that
  returns is followed by a second run, on the same path, that issues no \<open>mkdir\<close> at
  all and leaves the remote state as the first run left it; the second run returns
  whenever its first existence check is answered. In both runs every \<open>mkdir\<close> comes
  right after the existence check of the same path. The directories the first run makes
  are among the paths of the loop and are made in the order of the loop, in which every
  path is a prefix of the paths after it: shortest first.
\<close>

theorem pybricks_dirs_idempotent:
  assumes mk: "grows S"
    and first: "pybricks_dirs S fs file_path = (Returns (), fs1, tr1)"
  shows "(\<forall>p. Mkdir p \<notin> set (snd (snd (pybricks_dirs S fs1 file_path)))) \<and>
         fst (snd (pybricks_dirs S fs1 file_path)) = fs1 \<and>
         ((\<exists>b. sftp_exists S fs1 (path_join HOME (fst (path_split file_path))) = Returns b) \<longrightarrow>
            fst (pybricks_dirs S fs1 file_path) = Returns ()) \<and>
         guarded tr1 \<and> guarded (snd (snd (pybricks_dirs S fs1 file_path))) \<and>
         subseq (mkdirs tr1) (loop_paths (str_split (fst (path_split file_path)) sep) []) \<and>
         sorted_wrt prefix (loop_paths (str_split (fst (path_split file_path)) sep) [])"
proof -
  let ?dirs = "fst (path_split file_path)"
  let ?top = "path_join HOME ?dirs"
  let ?names = "str_split ?dirs sep"
  have g1: "guarded tr1"
    using pybricks_dirs_guarded [of S fs file_path] first by simp
  have g2: "guarded (snd (snd (pybricks_dirs S fs1 file_path)))"
    by (rule pybricks_dirs_guarded)
  from first obtain b where top: "sftp_exists S fs ?top = Returns b"
    by (cases "sftp_exists S fs ?top") (simp_all add: pybricks_dirs_def Let_def)
  have again: "(\<forall>p. Mkdir p \<notin> set (snd (snd (pybricks_dirs S fs1 file_path)))) \<and>
         fst (snd (pybricks_dirs S fs1 file_path)) = fs1 \<and>
         ((\<exists>b. sftp_exists S fs1 ?top = Returns b) \<longrightarrow>
            fst (pybricks_dirs S fs1 file_path) = Returns ())"
  proof (cases b)
    case True
    with first top have "fs1 = fs" by (simp add: pybricks_dirs_def Let_def)
    with top True show ?thesis by (simp add: pybricks_dirs_def Let_def)
  next
    case False
    with first top have loop: "after [Exists ?top] (make_folders S ?names [] fs) = (Returns (), fs1, tr1)"
      by (simp add: pybricks_dirs_def Let_def)
    then have ok: "fst (make_folders S ?names [] fs) = Returns ()"
      and st: "fst (snd (make_folders S ?names [] fs)) = fs1"
      by (simp_all add: after_def)
    have "\<forall>p \<in> set (loop_paths ?names []). sftp_exists S fs1 p = Returns True"
      using make_folders_done [OF mk ok] st by simp
    then have "make_folders S ?names [] fs1 = (Returns (), fs1, map Exists (loop_paths ?names []))"
      by (rule make_folders_again)
    then show ?thesis
      by (auto simp: pybricks_dirs_def Let_def split: outcome.splits)
  qed
  have "subseq (mkdirs tr1) (loop_paths (str_split (fst (path_split file_path)) sep) []) \<and>
        sorted_wrt prefix (loop_paths (str_split (fst (path_split file_path)) sep) [])"
    using pybricks_dirs_order [of S fs file_path] first by simp
  with again g1 g2 show ?thesis by simp
qed

text \<open>
  The theorem at \<open>demo/sub/hello.py\<close> over a remote side that has the home directory
  only: the first run makes \<open>demo\<close> and \<open>demo/sub\<close>, the second makes nothing.
\<close>

theorem pybricks_dirs_idempotent_witness:
  "grows mock_sftp \<and>
   pybricks_dirs mock_sftp [''/home/robot''] ''demo/sub/hello.py'' =
     (Returns (), [''/home/robot'', ''/home/robot/demo'', ''/home/robot/demo/sub''],
      [Exists ''/home/robot/demo/sub'', Exists ''/home/robot/demo'', Mkdir ''/home/robot/demo'',
       Exists ''/home/robot/demo/sub'', Mkdir ''/home/robot/demo/sub'']) \<and>
   (\<forall>p. Mkdir p \<notin> set (snd (snd (pybricks_dirs mock_sftp
       [''/home/robot'', ''/home/robot/demo'', ''/home/robot/demo/sub''] ''demo/sub/hello.py'')))) \<and>
   fst (pybricks_dirs mock_sftp
       [''/home/robot'', ''/home/robot/demo'', ''/home/robot/demo/sub''] ''demo/sub/hello.py'') = Returns ()"
proof -
  have first: "pybricks_dirs mock_sftp [''/home/robot''] ''demo/sub/hello.py'' =
     (Returns (), [''/home/robot'', ''/home/robot/demo'', ''/home/robot/demo/sub''],
      [Exists ''/home/robot/demo/sub'', Exists ''/home/robot/demo'', Mkdir ''/home/robot/demo'',
       Exists ''/home/robot/demo/sub'', Mkdir ''/home/robot/demo/sub''])"
    by (simp add: pybricks_dirs_def path_split_def path_join_def sep_def HOME_def mock_sftp_def Let_def)
  have "\<exists>b. sftp_exists mock_sftp [''/home/robot'', ''/home/robot/demo'', ''/home/robot/demo/sub'']
          (path_join HOME (fst (path_split ''demo/sub/hello.py''))) = Returns b"
    by (simp add: mock_sftp_def)
  with pybricks_dirs_idempotent [OF grows_mock_sftp first] first grows_mock_sftp show ?thesis by simp
qed

text \<open>
  Claim C10. When the remote parent directory of the file exists, the directory step of
  \<open>pybricks\<close> returns after that one existence check: the loop is not entered, no
  path of the loop is checked, no \<open>mkdir\<close> is issued and the remote state is
  unchanged.
\<close>

theorem pybricks_dirs_skips_loop:
  "sftp_exists S fs (path_join HOME (fst (path_split file_path))) = Returns True \<Longrightarrow>
   pybricks_dirs S fs file_path =
     (Returns (), fs, [Exists (path_join HOME (fst (path_split file_path)))])"
  by (rule pybricks_dirs_present)

theorem pybricks_dirs_skips_loop_witness:
  "sftp_exists mock_sftp [''/home/robot'', ''/home/robot/demo'']
      (path_join HOME (fst (path_split ''demo/hello.py''))) = Returns True \<and>
   pybricks_dirs mock_sftp [''/home/robot'', ''/home/robot/demo''] ''demo/hello.py'' =
     (Returns (), [''/home/robot'', ''/home/robot/demo''], [Exists ''/home/robot/demo''])"
proof -
  have h: "sftp_exists mock_sftp [''/home/robot'', ''/home/robot/demo'']
      (path_join HOME (fst (path_split ''demo/hello.py''))) = Returns True"
    by (simp add: path_split_def path_join_def sep_def HOME_def mock_sftp_def Let_def)
  have p: "path_join HOME (fst (path_split ''demo/hello.py'')) = ''/home/robot/demo''"
    by (simp add: path_split_def path_join_def sep_def HOME_def Let_def)
  show ?thesis using pybricks_dirs_skips_loop [OF h] h p by simp
qed

lemma path_split_no_sep: "sep \<notin> set p \<Longrightarrow> path_split p = ([], p)"
proof -
  assume "sep \<notin> set p"
  then have tw: "takeWhile (\<lambda>c. c \<noteq> sep) (rev p) = rev p"
    by (auto simp: takeWhile_eq_all_conv)
  show ?thesis unfolding path_split_def Let_def tw by simp
qed

lemma path_split_sep:
  assumes "sep \<in> set p"
  shows "fst (path_split p) \<noteq> []"
proof -
  let ?tail = "rev (takeWhile (\<lambda>c. c \<noteq> sep) (rev p))"
  let ?head = "take (length p - length ?tail) p"
  from assms have "takeWhile (\<lambda>c. c \<noteq> sep) (rev p) \<noteq> rev p"
    by (auto simp: takeWhile_eq_all_conv)
  moreover have "length (takeWhile (\<lambda>c. c \<noteq> sep) (rev p)) \<le> length (rev p)"
    by (rule length_takeWhile_le)
  ultimately have "length ?tail < length p"
    by (metis length_rev le_neq_implies_less takeWhile_eq_take take_all_iff order_refl)
  then have ne: "?head \<noteq> []" by auto
  have "rev (dropWhile (\<lambda>c. c = sep) (rev ?head)) \<noteq> []" if "\<not> list_all (\<lambda>c. c = sep) ?head"
    using that by (auto simp: list_all_iff dropWhile_eq_Nil_conv)
  with ne show ?thesis
    by (auto simp: path_split_def Let_def)
qed

lemma path_split_empty_head: "fst (path_split p) = [] \<longleftrightarrow> sep \<notin> set p"
  using path_split_sep [of p] path_split_no_sep [of p] by auto

text \<open>
  Claim C7. For a file path whose parent directory is empty (a path with no separator:
  a file deployed at the remote root \<open>/home/robot/\<close>), over a remote side on which
  that root exists, the directory step of \<open>pybricks\<close> is a no-op: it issues the one
  existence check of \<open>/home/robot/\<close> and returns, so the loop body is not run once,
  no path of the loop is checked, no \<open>mkdir\<close> is issued and the remote state is
  unchanged.
\<close>

theorem pybricks_dirs_root_file:
  assumes "fst (path_split file_path) = []"
    and "sftp_exists S fs ''/home/robot/'' = Returns True"
  shows "sep \<notin> set file_path \<and>
         pybricks_dirs S fs file_path = (Returns (), fs, [Exists ''/home/robot/'']) \<and>
         mkdirs (snd (snd (pybricks_dirs S fs file_path))) = []"
proof -
  have j: "path_join HOME [] = ''/home/robot/''"
    by (simp add: path_join_def HOME_def sep_def)
  have "sep \<notin> set file_path"
    using assms(1) path_split_empty_head by simp
  then show ?thesis
    using assms j by (simp add: pybricks_dirs_def Let_def)
qed

text \<open>The theorem at \<open>hello.py\<close> over a remote side that has the home directory.\<close>

theorem pybricks_dirs_root_file_witness:
  "fst (path_split ''hello.py'') = [] \<and>
   sftp_exists mock_sftp [''/home/robot/''] ''/home/robot/'' = Returns True \<and>
   pybricks_dirs mock_sftp [''/home/robot/''] ''hello.py'' =
     (Returns (), [''/home/robot/''], [Exists ''/home/robot/'']) \<and>
   mkdirs (snd (snd (pybricks_dirs mock_sftp [''/home/robot/''] ''hello.py''))) = []"
proof -
  have h: "fst (path_split ''hello.py'') = []"
    by (simp add: path_split_def sep_def Let_def)
  have e: "sftp_exists mock_sftp [''/home/robot/''] ''/home/robot/'' = Returns True"
    by (simp add: mock_sftp_def)
  show ?thesis
    using pybricks_dirs_root_file [OF h e] h e by simp
qed

subsection \<open>The output loop\<close>


lemma wait_for_time_bound: "\<exists>x. wait_for_time d (Some t) = Some x \<and> x \<le> t"
  by (simp add: wait_for_time_def split: option.splits)

lemma fold_receive_arriving [simp]: "arriving (fold receive b p) = arriving p"
proof (induction b arbitrary: p)
  case Nil
  then show ?case by simp
next
  case (Cons x b)
  then show ?case by (cases x) simp_all
qed








lemma pybricks_output_separate_arrivals:
  "pybricks_output
     (emits [[Stderr (with_newline ''a'')], [Stderr (with_newline ''b'')], [ExitStatus 0]]) [] =
   Some (Inr [''a'', ''b''])"
  by (simp add: pybricks_output.simps emits_def with_newline_def suspend_def readline_def
      wait_for_def read_timeout_def strip_def isspace_def)

text \<open>
  Claim C3 asks that the loop print every line of a process that writes its lines and
  exits. The loop tests the exit status before each read and stops at once when it is
  set, with no read of what is still in the buffer. For a process whose two lines
  \<open>a\<close> and \<open>b\<close> and exit status arrive while the loop is suspended in its first
  read, the loop prints \<open>a\<close> and ends: \<open>b\<close> is never printed.
\<close>

theorem pybricks_output_drops_buffered_lines:
  "pybricks_output
     (emits [[Stderr (with_newline ''a''), Stderr (with_newline ''b''), ExitStatus 0]]) [] =
   Some (Inr [''a''])"
  by (simp add: pybricks_output.simps emits_def with_newline_def suspend_def readline_def
      wait_for_def read_timeout_def strip_def isspace_def)




subsection \<open>Calls that overlap\<close>

text \<open>
  A task that is given its turns in a row does what the function \<open>get_connection\<close>
  does: the two renderings of \<open>_get_connection\<close> agree on every call that returns or
  raises.
\<close>

lemma alone_get_connection:
  "fst (get_connection T s address) \<noteq> Stalls \<Longrightarrow>
   alone T s address = (Finished (fst (get_connection T s address)), snd (get_connection T s address))"
  by (auto simp: alone_def model_defs begin_reconnect_def begin_start_sftp_def finish_def Let_def
      split: option.splits outcome.splits if_splits prod.splits)

lemma turn_at:
  "i < length ts \<Longrightarrow> turn T i (s, ts) = (snd (resume T s (ts ! i)), ts[i := fst (resume T s (ts ! i))])"
  by (simp add: turn_def split: prod.splits)

lemma six_turns:
  assumes i: "i < length ts" and st: "ts ! i = Start A"
    and ns: "fst (get_connection T s A) \<noteq> Stalls"
  shows "event_loop T (replicate 6 i) (s, ts) =
           (snd (get_connection T s A), ts[i := Finished (fst (get_connection T s A))])"
proof -
  have six: "replicate 6 i = [i, i, i, i, i, i]"
    by (simp add: numeral_eq_Suc)
  have step: "turn T i (s', ts[i := t]) = (snd (resume T s' t), ts[i := fst (resume T s' t)])" for s' t
    using i by (simp add: turn_at)
  have first: "turn T i (s, ts) = (snd (resume T s (Start A)), ts[i := fst (resume T s (Start A))])"
    using i st by (simp add: turn_at)
  have "event_loop T (replicate 6 i) (s, ts) = (snd (alone T s A), ts[i := fst (alone T s A)])"
    unfolding six event_loop_def alone_def Let_def
    by (simp only: fold_simps first step)
  then show ?thesis
    using alone_get_connection [OF ns] by simp
qed

lemma alive_cached:
  "alive T \<Longrightarrow> connections s A = Some c \<Longrightarrow>
   get_connection T s A = (Returns c, issue (Run c ''pwd'') s)"
  by (simp add: alive_def get_connection_def return_connection_def issue_def)

lemma alive_new:
  assumes "alive T" and "connections s A = None"
  shows "\<exists>c s'. get_connection T s A = (Returns c, s') \<and> connections s' A = Some c \<and>
           handshakes (calls s') = Suc (handshakes (calls s))"
  using assms
  by (auto simp: alive_def model_defs Let_def handshakes_append split: option.splits)

lemma later_calls:
  assumes "alive T" and "connections s A = Some c"
  shows "\<exists>s'. event_loop T (concat (map (replicate 6) [k..<k + m]))
                 (s, replicate k (Finished (Returns c)) @ replicate m (Start A)) =
               (s', replicate (k + m) (Finished (Returns c))) \<and>
             connections s' A = Some c \<and> handshakes (calls s') = handshakes (calls s)"
  using assms(2)
proof (induction m arbitrary: k s)
  case 0
  then show ?case by (simp add: event_loop_def)
next
  case (Suc m)
  let ?ts = "replicate k (Finished (Returns c)) @ replicate (Suc m) (Start A)"
  let ?s1 = "issue (Run c ''pwd'') s"
  have gc: "get_connection T s A = (Returns c, ?s1)"
    using alive_cached [OF assms(1) Suc.prems] .
  have i: "k < length ?ts" by simp
  have st: "?ts ! k = Start A" by (simp add: nth_append)
  have one: "event_loop T (replicate 6 k) (s, ?ts) = (?s1, ?ts[k := Finished (Returns c)])"
    using six_turns [OF i st, of T s] gc by simp
  have upd: "?ts[k := Finished (Returns c)] =
             replicate (Suc k) (Finished (Returns c)) @ replicate m (Start A)"
    by (simp add: list_update_append replicate_append_same)
  have c1: "connections ?s1 A = Some c" using Suc.prems by (simp add: issue_def)
  from Suc.IH [OF c1, of "Suc k"] obtain s' where
    rest: "event_loop T (concat (map (replicate 6) [Suc k..<Suc k + m]))
             (?s1, replicate (Suc k) (Finished (Returns c)) @ replicate m (Start A)) =
           (s', replicate (Suc k + m) (Finished (Returns c)))"
    and c': "connections s' A = Some c"
    and h': "handshakes (calls s') = handshakes (calls ?s1)"
    by blast
  have sched: "concat (map (replicate 6) [k..<k + Suc m]) =
               replicate 6 k @ concat (map (replicate 6) [Suc k..<Suc k + m])"
    by (simp add: upt_conv_Cons)
  have "event_loop T (concat (map (replicate 6) [k..<k + Suc m])) (s, ?ts) =
        (s', replicate (k + Suc m) (Finished (Returns c)))"
    unfolding sched using one rest upd by (simp add: event_loop_def)
  moreover have "handshakes (calls s') = handshakes (calls s)"
    using h' by (simp add: issue_def handshakes_append)
  ultimately show ?case using c' by blast
qed

lemma alive_live: "alive live"
  by (simp add: alive_def live_def)

text \<open>
  Claim C8, as stated, fails: \<open>_get_connection\<close> takes no lock and keeps no record of
  a connect in flight. Two tasks call it for \<open>A0\<close> with an empty dictionary over a
  live transport; the second starts while the first is suspended in its connect. Both
  find no entry, both connect, and they return two different connections, 0 and 2: two
  handshakes, two open connections to one address.
\<close>

theorem overlapping_calls_two_handshakes:
  "snd (event_loop live [0, 1, 0, 0, 0, 1, 1, 1] (init, [Start A0, Start A0])) =
     [Finished (Returns 0), Finished (Returns 2)] \<and>
   handshakes (calls (fst (event_loop live [0, 1, 0, 0, 0, 1, 1, 1] (init, [Start A0, Start A0])))) = 2"
  by (simp add: event_loop_def turn_def begin_reconnect_def begin_start_sftp_def finish_def
      return_connection_def issue_def live_def init_def Let_def)

text \<open>
  Claim C8, amended. Calls of \<open>_get_connection\<close> for one address that do not overlap
  (each task runs to its end before the next starts), over a transport that answers
  every call, all return the same connection, which is the entry of the address
  afterwards, and issue one handshake in all when the address had no entry and none
  when it had one. Calls that overlap are not serialised: each one that finds no
  live entry makes its own connection.
\<close>

theorem sequential_calls_one_handshake:
  assumes "alive T"
  shows "\<exists>c s'. event_loop T (one_after_another (Suc n)) (s, replicate (Suc n) (Start A)) =
                   (s', replicate (Suc n) (Finished (Returns c))) \<and>
                 connections s' A = Some c \<and>
                 handshakes (calls s') =
                   handshakes (calls s) + (if connections s A = None then 1 else 0)"
proof -
  obtain c s1 where gc: "get_connection T s A = (Returns c, s1)"
    and c1: "connections s1 A = Some c"
    and h1: "handshakes (calls s1) = handshakes (calls s) + (if connections s A = None then 1 else 0)"
  proof (cases "connections s A")
    case None
    from alive_new [OF assms None] that None show ?thesis by auto
  next
    case (Some c)
    from alive_cached [OF assms Some] that [of c "issue (Run c ''pwd'') s"] Some show ?thesis
      by (simp add: issue_def handshakes_append)
  qed
  let ?ts = "replicate (Suc n) (Start A)"
  have one: "event_loop T (replicate 6 0) (s, ?ts) = (s1, ?ts[0 := Finished (Returns c)])"
    using six_turns [of 0 ?ts A T s] gc by simp
  have upd: "?ts[0 := Finished (Returns c)] = replicate (Suc 0) (Finished (Returns c)) @ replicate n (Start A)"
    by simp
  from later_calls [OF assms c1, of "Suc 0" n] obtain s' where
    rest: "event_loop T (concat (map (replicate 6) [Suc 0..<Suc 0 + n]))
             (s1, replicate (Suc 0) (Finished (Returns c)) @ replicate n (Start A)) =
           (s', replicate (Suc 0 + n) (Finished (Returns c)))"
    and c': "connections s' A = Some c"
    and h': "handshakes (calls s') = handshakes (calls s1)"
    by blast
  have sched: "one_after_another (Suc n) = replicate 6 0 @ concat (map (replicate 6) [Suc 0..<Suc 0 + n])"
    by (simp add: one_after_another_def upt_conv_Cons del: upt_Suc)
  have "event_loop T (one_after_another (Suc n)) (s, ?ts) = (s', replicate (Suc n) (Finished (Returns c)))"
    unfolding sched using one rest upd by (simp add: event_loop_def)
  with c' h' h1 show ?thesis by auto
qed

theorem sequential_calls_one_handshake_witness:
  "alive live \<and>
   (\<exists>c s'. event_loop live (one_after_another 2) (init, [Start A0, Start A0]) =
              (s', [Finished (Returns c), Finished (Returns c)]) \<and>
            connections s' A0 = Some c \<and> handshakes (calls s') = 1)"
  using sequential_calls_one_handshake [OF alive_live, of 1 init A0] alive_live
  by (simp add: init_def numeral_2_eq_2)


end
